theory Spec2Isabelle
  imports Main
begin

section \<open>Values carried by the machines\<close>

text \<open>
  Both machines of \<^verbatim>\<open>src/machines/dataFetch.machine.ts\<close> are generic in the payload type
  \<open>T\<close>. The code inspects a payload in one way only: it tests whether it is truthy
  (\<^verbatim>\<open>context.cacheTime > 0 && context.data\<close>, \<^verbatim>\<open>context.cache?.data || null\<close>). A payload is
  therefore a JavaScript value with its truthiness; numbers are restricted to integers
  (no \<open>NaN\<close>, no fractions). \<open>JNull\<close> is the \<^verbatim>\<open>null\<close> of \<^verbatim>\<open>data: T | null\<close> and of
  \<^verbatim>\<open>error: Error | null\<close>; \<open>JError m\<close> is \<^verbatim>\<open>new Error(m)\<close>.
\<close>

datatype jsval =
    JNull
  | JUndefined
  | JBool bool
  | JNum int
  | JStr string
  | JError string
  | JObj "(string \<times> jsval) list"

fun truthy :: "jsval \<Rightarrow> bool" where
  "truthy JNull = False"
| "truthy JUndefined = False"
| "truthy (JBool b) = b"
| "truthy (JNum n) = (n \<noteq> 0)"
| "truthy (JStr s) = (s \<noteq> [])"
| "truthy (JError m) = True"
| "truthy (JObj fs) = True"

section \<open>The single-fetch machine: \<^verbatim>\<open>createDataFetchMachine\<close>\<close>

subsection \<open>Context, events, state nodes\<close>

record FetchContext =
  data :: jsval
  error :: jsval
  retries :: int
  maxRetries :: int
  retryDelay :: int
  cache :: "(jsval \<times> int) option"
  cacheTime :: int

text \<open>
  \<open>FETCH\<close> .. \<open>CANCEL\<close> are the events of the type \<^verbatim>\<open>FetchEvent\<close>. The last three are the
  events the XState runtime itself delivers: the done and the error event of the invoked
  promise actor \<^verbatim>\<open>fetchData\<close> (carrying its output, respectively the rejection value) and the
  delayed event of \<^verbatim>\<open>after: { delayedRetry: ... }\<close>. Each carries the identity of the actor or
  timer it comes from.
\<close>

datatype FetchEvent =
    FETCH
  | RETRY
  | SUCCESS jsval
  | FAILURE jsval
  | RESET
  | CANCEL
  | DoneActor nat jsval
  | ErrorActor nat jsval
  | AfterDelay nat

datatype FetchState = Idle | CheckingCache | Cached | Loading | Retrying | Success | Error

text \<open>
  A snapshot is the state value and the context, together with what the runtime keeps for the
  active state node: the invoked actor that is running (\<open>fs_child\<close>), the delayed event that is
  pending with its delay in milliseconds (\<open>fs_timer\<close>), and the number of actors and timers
  started so far (\<open>fs_spawned\<close>), from which fresh identities are drawn.
\<close>

record FetchSnapshot =
  fs_value :: FetchState
  fs_context :: FetchContext
  fs_child :: "nat option"
  fs_timer :: "(nat \<times> int) option"
  fs_spawned :: nat

subsection \<open>Actions and delays\<close>

text \<open>
  For the done event of the invoked actor \<^verbatim>\<open>'output' in event\<close> holds, and for its error event
  \<^verbatim>\<open>'error' in event\<close> holds; \<open>setData\<close> and \<open>setError\<close> are only used on these two events, so
  they take the output, respectively the rejection value, as argument.
\<close>

definition setData :: "jsval \<Rightarrow> FetchContext \<Rightarrow> FetchContext" where
  "setData output c = c\<lparr>data := output, error := JNull\<rparr>"

definition setCachedData :: "FetchContext \<Rightarrow> FetchContext" where
  "setCachedData c =
     c\<lparr>data := (case cache c of
                  None \<Rightarrow> JNull
                | Some (d, ts) \<Rightarrow> if truthy d then d else JNull),
       error := JNull\<rparr>"

definition setError :: "jsval \<Rightarrow> FetchContext \<Rightarrow> FetchContext" where
  "setError e c = c\<lparr>error := e\<rparr>"

definition cacheData :: "int \<Rightarrow> FetchContext \<Rightarrow> FetchContext" where
  "cacheData now c =
     c\<lparr>cache := (if cacheTime c > 0 \<and> truthy (data c) then Some (data c, now) else None)\<rparr>"

definition clearCache :: "FetchContext \<Rightarrow> FetchContext" where
  "clearCache c = c\<lparr>cache := None\<rparr>"

definition incrementRetries :: "FetchContext \<Rightarrow> FetchContext" where
  "incrementRetries c = c\<lparr>retries := retries c + 1\<rparr>"

definition resetRetries :: "FetchContext \<Rightarrow> FetchContext" where
  "resetRetries c = c\<lparr>retries := 0\<rparr>"

definition resetContext :: "FetchContext \<Rightarrow> FetchContext" where
  "resetContext c = c\<lparr>data := JNull, error := JNull, retries := 0, cache := None\<rparr>"

text \<open>
  The numbers of the context are JavaScript numbers, that is doubles; the model keeps the
  integer-valued ones as \<open>int\<close>. Comparisons of such numbers are exact. A product is not: the
  code's \<^verbatim>\<open>context.retryDelay * (context.retries + 1)\<close> is the exact result rounded to the
  nearest double, ties to the even significand, and this matters as soon as the result needs
  more than 53 bits. \<open>excess_bits a\<close> is the number of bits by which \<open>a \<ge> 0\<close> exceeds 53 bits,
  and \<open>round_double\<close> rounds an integer to the nearest double. (Results beyond the largest
  finite double, \<^verbatim>\<open>Infinity\<close> in the code, are not distinguished.)
\<close>

function excess_bits :: "int \<Rightarrow> nat" where
  "excess_bits a = (if a < 2 ^ 53 then 0 else Suc (excess_bits (a div 2)))"
  by pat_completeness auto
termination
proof (relation "measure nat")
  show "wf (measure nat)" by simp
next
  fix a :: int
  assume "\<not> a < 2 ^ 53"
  then have "0 < a" by simp
  then show "(a div 2, a) \<in> measure nat" by simp
qed

declare excess_bits.simps [simp del]

definition round_double :: "int \<Rightarrow> int" where
  "round_double n =
     (let a = \<bar>n\<bar>;
          e = excess_bits a;
          q = a div 2 ^ e;
          r = a mod 2 ^ e;
          q' = (if 2 ^ e < 2 * r \<or> (2 * r = 2 ^ e \<and> odd q) then q + 1 else q)
      in sgn n * (q' * 2 ^ e))"

definition delayedRetry :: "FetchContext \<Rightarrow> int" where
  "delayedRetry c = round_double (retryDelay c * round_double (retries c + 1))"

subsection \<open>Entering and leaving state nodes\<close>

text \<open>
  \<open>assign\<close> applies one action to the context of a snapshot. The actions of a transition run in
  the order of its list, each on the context the previous one produced: \<open>cacheData\<close> reads the
  \<open>data\<close> that \<open>setData\<close> has just written.

  Entering \<open>loading\<close> starts a fresh \<^verbatim>\<open>fetchData\<close> actor (one call of \<^verbatim>\<open>fetchFn\<close>); leaving it
  stops that actor, and a stopped promise actor reports nothing to the machine. Entering
  \<open>retrying\<close> schedules the delayed event with the delay computed from the context at entry,
  that is after the actions of the transition; leaving it cancels the event. Entering
  \<open>cached\<close> runs its entry action \<open>setCachedData\<close>.
\<close>

definition assign :: "(FetchContext \<Rightarrow> FetchContext) \<Rightarrow> FetchSnapshot \<Rightarrow> FetchSnapshot" where
  "assign f s = s\<lparr>fs_context := f (fs_context s)\<rparr>"

definition exit_node :: "FetchSnapshot \<Rightarrow> FetchSnapshot" where
  "exit_node s = s\<lparr>fs_child := None, fs_timer := None\<rparr>"

definition enter_idle :: "FetchSnapshot \<Rightarrow> FetchSnapshot" where
  "enter_idle s = s\<lparr>fs_value := Idle\<rparr>"

definition enter_cached :: "FetchSnapshot \<Rightarrow> FetchSnapshot" where
  "enter_cached s = assign setCachedData (s\<lparr>fs_value := Cached\<rparr>)"

definition enter_loading :: "FetchSnapshot \<Rightarrow> FetchSnapshot" where
  "enter_loading s =
     s\<lparr>fs_value := Loading, fs_child := Some (fs_spawned s), fs_spawned := Suc (fs_spawned s)\<rparr>"

definition enter_retrying :: "FetchSnapshot \<Rightarrow> FetchSnapshot" where
  "enter_retrying s =
     s\<lparr>fs_value := Retrying,
       fs_timer := Some (fs_spawned s, delayedRetry (fs_context s)),
       fs_spawned := Suc (fs_spawned s)\<rparr>"

definition enter_success :: "FetchSnapshot \<Rightarrow> FetchSnapshot" where
  "enter_success s = s\<lparr>fs_value := Success\<rparr>"

definition enter_error :: "FetchSnapshot \<Rightarrow> FetchSnapshot" where
  "enter_error s = s\<lparr>fs_value := Error\<rparr>"

subsection \<open>The state nodes\<close>

text \<open>
  One function per state node, in the order of the source; the first argument is the value
  of \<^verbatim>\<open>Date.now()\<close> during the step. An event for which the active node has no transition, or
  no transition whose guard holds, leaves the snapshot as it is.
\<close>

definition checkingCache_always :: "int \<Rightarrow> FetchSnapshot \<Rightarrow> FetchSnapshot" where
  "checkingCache_always now s =
     (if (case cache (fs_context s) of
            None \<Rightarrow> False
          | Some (d, ts) \<Rightarrow> now - ts < cacheTime (fs_context s))
      then enter_cached s
      else enter_loading s)"

fun idle_on :: "int \<Rightarrow> FetchSnapshot \<Rightarrow> FetchEvent \<Rightarrow> FetchSnapshot" where
  "idle_on now s FETCH =
     (if cacheTime (fs_context s) > 0
      then checkingCache_always now (exit_node s)
      else enter_loading (exit_node s))"
| "idle_on now s RESET = assign resetContext s"
| "idle_on now s ev = s"

fun cached_on :: "int \<Rightarrow> FetchSnapshot \<Rightarrow> FetchEvent \<Rightarrow> FetchSnapshot" where
  "cached_on now s FETCH = enter_loading (assign clearCache (exit_node s))"
| "cached_on now s RESET = enter_idle (assign resetContext (exit_node s))"
| "cached_on now s ev = s"

fun loading_on :: "int \<Rightarrow> FetchSnapshot \<Rightarrow> FetchEvent \<Rightarrow> FetchSnapshot" where
  "loading_on now s (DoneActor i output) =
     (if fs_child s = Some i
      then enter_success
             (assign resetRetries (assign (cacheData now) (assign (setData output) (exit_node s))))
      else s)"
| "loading_on now s (ErrorActor i e) =
     (if fs_child s = Some i
      then (if retries (fs_context s) < maxRetries (fs_context s)
            then enter_retrying (assign incrementRetries (exit_node s))
            else enter_error (assign (setError e) (exit_node s)))
      else s)"
| "loading_on now s CANCEL = enter_idle (exit_node s)"
| "loading_on now s ev = s"

fun retrying_on :: "int \<Rightarrow> FetchSnapshot \<Rightarrow> FetchEvent \<Rightarrow> FetchSnapshot" where
  "retrying_on now s (AfterDelay i) =
     (if (case fs_timer s of None \<Rightarrow> False | Some (j, d) \<Rightarrow> j = i)
      then enter_loading (exit_node s)
      else s)"
| "retrying_on now s CANCEL = enter_idle (exit_node s)"
| "retrying_on now s RESET = enter_idle (assign resetContext (exit_node s))"
| "retrying_on now s ev = s"

fun success_on :: "int \<Rightarrow> FetchSnapshot \<Rightarrow> FetchEvent \<Rightarrow> FetchSnapshot" where
  "success_on now s FETCH = enter_loading (exit_node s)"
| "success_on now s RESET = enter_idle (assign resetContext (exit_node s))"
| "success_on now s ev = s"

fun error_on :: "int \<Rightarrow> FetchSnapshot \<Rightarrow> FetchEvent \<Rightarrow> FetchSnapshot" where
  "error_on now s RETRY = enter_loading (assign resetRetries (exit_node s))"
| "error_on now s FETCH = enter_loading (assign resetRetries (exit_node s))"
| "error_on now s RESET = enter_idle (assign resetContext (exit_node s))"
| "error_on now s ev = s"

text \<open>
  One step of the machine. \<open>checkingCache\<close> has only eventless transitions, which are taken
  within the step that enters it, so no event is ever received there.
\<close>

definition fetch_step :: "int \<Rightarrow> FetchSnapshot \<Rightarrow> FetchEvent \<Rightarrow> FetchSnapshot" where
  "fetch_step now s ev =
     (case fs_value s of
        Idle \<Rightarrow> idle_on now s ev
      | CheckingCache \<Rightarrow> s
      | Cached \<Rightarrow> cached_on now s ev
      | Loading \<Rightarrow> loading_on now s ev
      | Retrying \<Rightarrow> retrying_on now s ev
      | Success \<Rightarrow> success_on now s ev
      | Error \<Rightarrow> error_on now s ev)"

text \<open>The initial snapshot: \<^verbatim>\<open>initial: 'idle'\<close> and the initial context built from the options.\<close>

definition initialContext :: "int \<Rightarrow> int \<Rightarrow> int \<Rightarrow> FetchContext" where
  "initialContext retryCount retryDelay0 cacheTime0 =
     \<lparr>data = JNull, error = JNull, retries = 0, maxRetries = retryCount,
      retryDelay = retryDelay0, cache = None, cacheTime = cacheTime0\<rparr>"

definition createDataFetchMachine :: "int \<Rightarrow> int \<Rightarrow> int \<Rightarrow> FetchSnapshot" where
  "createDataFetchMachine retryCount retryDelay0 cacheTime0 =
     \<lparr>fs_value = Idle, fs_context = initialContext retryCount retryDelay0 cacheTime0,
      fs_child = None, fs_timer = None, fs_spawned = 0\<rparr>"

text \<open>A run: the events are processed one after the other, each at its own clock reading.\<close>

fun fetch_run :: "FetchSnapshot \<Rightarrow> (int \<times> FetchEvent) list \<Rightarrow> FetchSnapshot" where
  "fetch_run s [] = s"
| "fetch_run s ((now, ev) # evs) = fetch_run (fetch_step now s ev) evs"

text \<open>
  A persistently failing Fetch Operation, seen from the machine: \<open>fail_current\<close> rejects the
  promise of the actor that is running, \<open>fire_timer\<close> lets the pending delayed event fire, and
  \<open>fail_and_retry\<close> is one failed attempt followed by the automatic retry, if one was
  scheduled. \<open>succeed_current\<close> resolves the promise of the running actor. The transitions
  taken on a failure and on the delayed event never read the clock, so it is set to 0 there.
\<close>

definition fail_current :: "jsval \<Rightarrow> FetchSnapshot \<Rightarrow> FetchSnapshot" where
  "fail_current e s =
     (case fs_child s of None \<Rightarrow> s | Some i \<Rightarrow> fetch_step 0 s (ErrorActor i e))"

definition fire_timer :: "FetchSnapshot \<Rightarrow> FetchSnapshot" where
  "fire_timer s =
     (case fs_timer s of None \<Rightarrow> s | Some (i, d) \<Rightarrow> fetch_step 0 s (AfterDelay i))"

definition fail_and_retry :: "jsval \<Rightarrow> FetchSnapshot \<Rightarrow> FetchSnapshot" where
  "fail_and_retry e s = fire_timer (fail_current e s)"

definition succeed_current :: "int \<Rightarrow> jsval \<Rightarrow> FetchSnapshot \<Rightarrow> FetchSnapshot" where
  "succeed_current now v s =
     (case fs_child s of None \<Rightarrow> s | Some i \<Rightarrow> fetch_step now s (DoneActor i v))"

text \<open>The delay of the pending delayed event, if there is one.\<close>

definition pending_delay :: "FetchSnapshot \<Rightarrow> int option" where
  "pending_delay s = (case fs_timer s of None \<Rightarrow> None | Some (i, d) \<Rightarrow> Some d)"

section \<open>The paginated machine: \<^verbatim>\<open>createPaginatedFetchMachine\<close>\<close>

subsection \<open>Context, events, state nodes\<close>

text \<open>
  The field \<^verbatim>\<open>error\<close> of \<^verbatim>\<open>PaginatedContext\<close> is called \<open>p_error\<close> here, the name \<open>error\<close>
  being taken by the single-fetch context.
\<close>

record PaginatedContext =
  items :: "jsval list"
  total :: int
  page :: int
  limit :: int
  loading :: bool
  p_error :: jsval
  hasMore :: bool

text \<open>The value a page fetch resolves to, as \<^verbatim>\<open>fetchFn\<close> is typed: \<^verbatim>\<open>{ items: T[]; total: number }\<close>.\<close>

record PageOutput =
  out_items :: "jsval list"
  out_total :: int

text \<open>
  \<open>LOAD_PAGE\<close> .. \<open>P_RESET\<close> are the events of the type \<^verbatim>\<open>PaginatedEvent\<close> (\<open>P_SUCCESS\<close>,
  \<open>P_FAILURE\<close> and \<open>P_RESET\<close> are its \<^verbatim>\<open>SUCCESS\<close>, \<^verbatim>\<open>FAILURE\<close> and \<^verbatim>\<open>RESET\<close>); the last two are
  the done and the error event of the invoked actor \<^verbatim>\<open>fetchPage\<close>.
\<close>

datatype PaginatedEvent =
    LOAD_PAGE int
  | LOAD_MORE
  | P_SUCCESS PageOutput
  | P_FAILURE jsval
  | P_RESET
  | PageDone nat PageOutput
  | PageError nat jsval

datatype PaginatedState = PIdle | PLoading | PError

text \<open>
  The running \<^verbatim>\<open>fetchPage\<close> actor is kept with the input it was invoked with: its identity,
  the page and the limit passed to \<^verbatim>\<open>fetchFn\<close>.
\<close>

record PaginatedSnapshot =
  ps_value :: PaginatedState
  ps_context :: PaginatedContext
  ps_child :: "(nat \<times> int \<times> int) option"
  ps_spawned :: nat

subsection \<open>Actions\<close>

text \<open>
  \<open>setPage\<close> is only used on \<open>LOAD_PAGE\<close>, \<open>appendItems\<close> and \<open>updatePagination\<close> only on the done
  event, whose output is an object with \<^verbatim>\<open>items\<close> and \<^verbatim>\<open>total\<close>, and \<open>setErrorState\<close> only on
  the error event; the other branches of these actions are not reached. Both properties that
  \<open>updatePagination\<close> assigns are computed from the context the action receives.
\<close>

definition setPage :: "int \<Rightarrow> PaginatedContext \<Rightarrow> PaginatedContext" where
  "setPage n c = c\<lparr>page := n\<rparr>"

definition incrementPage :: "PaginatedContext \<Rightarrow> PaginatedContext" where
  "incrementPage c = c\<lparr>page := page c + 1\<rparr>"

definition setLoading :: "PaginatedContext \<Rightarrow> PaginatedContext" where
  "setLoading c = c\<lparr>loading := True\<rparr>"

definition clearLoading :: "PaginatedContext \<Rightarrow> PaginatedContext" where
  "clearLoading c = c\<lparr>loading := False\<rparr>"

definition appendItems :: "PageOutput \<Rightarrow> PaginatedContext \<Rightarrow> PaginatedContext" where
  "appendItems output c =
     c\<lparr>items := (if page c = 1 then out_items output else items c @ out_items output)\<rparr>"

definition updatePagination :: "PageOutput \<Rightarrow> PaginatedContext \<Rightarrow> PaginatedContext" where
  "updatePagination output c =
     c\<lparr>total := out_total output,
       hasMore := (int (length (items c)) + int (length (out_items output)) < out_total output)\<rparr>"

definition setErrorState :: "jsval \<Rightarrow> PaginatedContext \<Rightarrow> PaginatedContext" where
  "setErrorState e c = c\<lparr>p_error := e\<rparr>"

definition resetPaginationContext :: "PaginatedContext \<Rightarrow> PaginatedContext" where
  "resetPaginationContext c =
     c\<lparr>items := [], total := 0, page := 1, loading := False, p_error := JNull, hasMore := True\<rparr>"

subsection \<open>The state nodes\<close>

definition p_assign ::
  "(PaginatedContext \<Rightarrow> PaginatedContext) \<Rightarrow> PaginatedSnapshot \<Rightarrow> PaginatedSnapshot" where
  "p_assign f s = s\<lparr>ps_context := f (ps_context s)\<rparr>"

text \<open>
  Entering \<open>loading\<close> runs the entry action \<open>setLoading\<close> and invokes \<^verbatim>\<open>fetchPage\<close> with the input
  \<^verbatim>\<open>{ page: context.page, limit: context.limit }\<close>, read after the actions of the transition.
\<close>

definition p_enter_loading :: "PaginatedSnapshot \<Rightarrow> PaginatedSnapshot" where
  "p_enter_loading s =
     (let s1 = p_assign setLoading (s\<lparr>ps_value := PLoading\<rparr>)
      in s1\<lparr>ps_child := Some (ps_spawned s1, page (ps_context s1), limit (ps_context s1)),
            ps_spawned := Suc (ps_spawned s1)\<rparr>)"

definition p_exit_loading :: "PaginatedSnapshot \<Rightarrow> PaginatedSnapshot" where
  "p_exit_loading s = s\<lparr>ps_child := None\<rparr>"

fun p_idle_on :: "PaginatedSnapshot \<Rightarrow> PaginatedEvent \<Rightarrow> PaginatedSnapshot" where
  "p_idle_on s (LOAD_PAGE n) = p_enter_loading (p_assign (setPage n) s)"
| "p_idle_on s LOAD_MORE =
     (if hasMore (ps_context s) \<and> \<not> loading (ps_context s)
      then p_enter_loading (p_assign incrementPage s)
      else s)"
| "p_idle_on s P_RESET = p_assign resetPaginationContext s"
| "p_idle_on s ev = s"

fun p_loading_on :: "PaginatedSnapshot \<Rightarrow> PaginatedEvent \<Rightarrow> PaginatedSnapshot" where
  "p_loading_on s (PageDone i output) =
     (if (case ps_child s of None \<Rightarrow> False | Some (j, p, l) \<Rightarrow> j = i)
      then (p_assign clearLoading
              (p_assign (updatePagination output)
                 (p_assign (appendItems output) (p_exit_loading s))))\<lparr>ps_value := PIdle\<rparr>
      else s)"
| "p_loading_on s (PageError i e) =
     (if (case ps_child s of None \<Rightarrow> False | Some (j, p, l) \<Rightarrow> j = i)
      then (p_assign clearLoading
              (p_assign (setErrorState e) (p_exit_loading s)))\<lparr>ps_value := PError\<rparr>
      else s)"
| "p_loading_on s ev = s"

fun p_error_on :: "PaginatedSnapshot \<Rightarrow> PaginatedEvent \<Rightarrow> PaginatedSnapshot" where
  "p_error_on s (LOAD_PAGE n) = p_enter_loading (p_assign (setPage n) s)"
| "p_error_on s LOAD_MORE = (if hasMore (ps_context s) then p_enter_loading s else s)"
| "p_error_on s P_RESET = (p_assign resetPaginationContext s)\<lparr>ps_value := PIdle\<rparr>"
| "p_error_on s ev = s"

definition paginated_step :: "PaginatedSnapshot \<Rightarrow> PaginatedEvent \<Rightarrow> PaginatedSnapshot" where
  "paginated_step s ev =
     (case ps_value s of
        PIdle \<Rightarrow> p_idle_on s ev
      | PLoading \<Rightarrow> p_loading_on s ev
      | PError \<Rightarrow> p_error_on s ev)"

definition initialPaginatedContext :: "int \<Rightarrow> PaginatedContext" where
  "initialPaginatedContext limit0 =
     \<lparr>items = [], total = 0, page = 1, limit = limit0, loading = False, p_error = JNull,
      hasMore = True\<rparr>"

definition createPaginatedFetchMachine :: "int \<Rightarrow> PaginatedSnapshot" where
  "createPaginatedFetchMachine limit0 =
     \<lparr>ps_value = PIdle, ps_context = initialPaginatedContext limit0, ps_child = None,
      ps_spawned = 0\<rparr>"

fun paginated_run :: "PaginatedSnapshot \<Rightarrow> PaginatedEvent list \<Rightarrow> PaginatedSnapshot" where
  "paginated_run s [] = s"
| "paginated_run s (ev # evs) = paginated_run (paginated_step s ev) evs"

section \<open>Invariants of the reachable snapshots\<close>

text \<open>
  \<open>config_inv\<close>: the three configured fields keep the values given at construction, and a
  stored cache entry holds a truthy value. \<open>retries_inv\<close>: the bound on \<open>retries\<close>.
  \<open>runtime_inv\<close>: an actor runs exactly in \<open>loading\<close>, a delayed event is pending exactly in
  \<open>retrying\<close>, both with identities already drawn, and \<open>checkingCache\<close> is never rested in.
  \<open>stale a\<close>: the actor \<open>a\<close> was started earlier and is not the one running.
  \<open>paginated_inv\<close>: the page size is the configured one, the field \<open>loading\<close> mirrors the state,
  and an actor runs exactly in \<open>loading\<close>, invoked with the page and limit of the context.
\<close>

definition config_inv :: "int \<Rightarrow> int \<Rightarrow> int \<Rightarrow> FetchSnapshot \<Rightarrow> bool" where
  "config_inv k d c s =
     (maxRetries (fs_context s) = k \<and> retryDelay (fs_context s) = d \<and>
      cacheTime (fs_context s) = c \<and>
      (case cache (fs_context s) of None \<Rightarrow> True | Some (v, t) \<Rightarrow> truthy v))"

definition retries_inv :: "FetchSnapshot \<Rightarrow> bool" where
  "retries_inv s =
     (0 \<le> retries (fs_context s) \<and> retries (fs_context s) \<le> maxRetries (fs_context s))"

definition runtime_inv :: "FetchSnapshot \<Rightarrow> bool" where
  "runtime_inv s =
     ((case fs_child s of
         None \<Rightarrow> fs_value s \<noteq> Loading
       | Some i \<Rightarrow> i < fs_spawned s \<and> fs_value s = Loading) \<and>
      (case fs_timer s of
         None \<Rightarrow> fs_value s \<noteq> Retrying
       | Some (i, dl) \<Rightarrow> i < fs_spawned s \<and> fs_value s = Retrying) \<and>
      fs_value s \<noteq> CheckingCache)"

definition stale :: "nat \<Rightarrow> FetchSnapshot \<Rightarrow> bool" where
  "stale a s = (a < fs_spawned s \<and> fs_child s \<noteq> Some a)"

definition paginated_inv :: "int \<Rightarrow> PaginatedSnapshot \<Rightarrow> bool" where
  "paginated_inv l s =
     (limit (ps_context s) = l \<and>
      loading (ps_context s) = (ps_value s = PLoading) \<and>
      (case ps_child s of
         None \<Rightarrow> ps_value s \<noteq> PLoading
       | Some (i, p, lm) \<Rightarrow>
           ps_value s = PLoading \<and> p = page (ps_context s) \<and> lm = limit (ps_context s)))"

text \<open>
  \<open>retry_delay e s i\<close> is the delay scheduled before retry attempt \<open>i\<close> (counted from 1) when
  every attempt since the snapshot \<open>s\<close> fails: the delay pending after the \<open>i\<close>-th failure.
\<close>

definition retry_delay :: "jsval \<Rightarrow> FetchSnapshot \<Rightarrow> nat \<Rightarrow> int option" where
  "retry_delay e s i = pending_delay (fail_current e ((fail_and_retry e ^^ (i - 1)) s))"

text \<open>A page result of \<open>n\<close> elements that reports the total \<open>t\<close>, for the scenarios.\<close>

definition page_of :: "nat \<Rightarrow> int \<Rightarrow> PageOutput" where
  "page_of n t = \<lparr>out_items = replicate n (JNum 7), out_total = t\<rparr>"

section \<open>Properties of the single-fetch machine\<close>

lemmas fetch_action_defs =
  setData_def setCachedData_def setError_def cacheData_def clearCache_def
  incrementRetries_def resetRetries_def resetContext_def delayedRetry_def

lemmas fetch_node_defs =
  assign_def exit_node_def enter_idle_def enter_cached_def enter_loading_def
  enter_retrying_def enter_success_def enter_error_def checkingCache_always_def

lemmas fetch_init_defs = createDataFetchMachine_def initialContext_def

lemmas fetch_eval_defs =
  fetch_init_defs fetch_step_def fetch_node_defs fetch_action_defs
  fail_current_def fire_timer_def fail_and_retry_def succeed_current_def pending_delay_def

subsection \<open>The invariants hold along every run\<close>

lemma config_inv_step: "config_inv k d c s \<Longrightarrow> config_inv k d c (fetch_step now s ev)"
  by (cases "fs_value s"; cases ev)
     (auto simp: fetch_step_def config_inv_def fetch_action_defs fetch_node_defs
           split: option.splits)

lemma retries_inv_step: "retries_inv s \<Longrightarrow> retries_inv (fetch_step now s ev)"
  by (cases "fs_value s"; cases ev)
     (auto simp: fetch_step_def retries_inv_def fetch_action_defs fetch_node_defs
           split: option.splits)

lemma runtime_inv_step: "runtime_inv s \<Longrightarrow> runtime_inv (fetch_step now s ev)"
  by (cases "fs_value s"; cases ev)
     (auto simp: fetch_step_def runtime_inv_def fetch_action_defs fetch_node_defs
           split: option.splits)

lemma stale_step: "stale a s \<Longrightarrow> stale a (fetch_step now s ev)"
  by (cases "fs_value s"; cases ev)
     (auto simp: fetch_step_def stale_def fetch_action_defs fetch_node_defs
           split: option.splits)

lemma config_inv_run: "config_inv k d c s \<Longrightarrow> config_inv k d c (fetch_run s evs)"
  by (induction evs arbitrary: s) (auto simp: config_inv_step)

lemma retries_inv_run: "retries_inv s \<Longrightarrow> retries_inv (fetch_run s evs)"
  by (induction evs arbitrary: s) (auto simp: retries_inv_step)

lemma runtime_inv_run: "runtime_inv s \<Longrightarrow> runtime_inv (fetch_run s evs)"
  by (induction evs arbitrary: s) (auto simp: runtime_inv_step)

lemma stale_run: "stale a s \<Longrightarrow> stale a (fetch_run s evs)"
  by (induction evs arbitrary: s) (auto simp: stale_step)

lemma config_inv_init: "config_inv k d c (createDataFetchMachine k d c)"
  by (simp add: config_inv_def fetch_init_defs)

lemma retries_inv_init: "0 \<le> k \<Longrightarrow> retries_inv (createDataFetchMachine k d c)"
  by (simp add: retries_inv_def fetch_init_defs)

lemma runtime_inv_init: "runtime_inv (createDataFetchMachine k d c)"
  by (simp add: runtime_inv_def fetch_init_defs)

lemma stale_ignored:
  assumes "stale a s"
  shows "fetch_step now s (DoneActor a v) = s" and "fetch_step now s (ErrorActor a e) = s"
  using assms by (cases "fs_value s"; simp add: fetch_step_def stale_def)+

lemma cancel_loading:
  assumes "fs_value s = Loading"
  shows "fetch_step now s CANCEL = s\<lparr>fs_value := Idle, fs_child := None, fs_timer := None\<rparr>"
  using assms by (simp add: fetch_step_def fetch_node_defs)

subsection \<open>Cancelling a fetch in flight\<close>

text \<open>
  Claim C8. If \<open>CANCEL\<close> is received in \<open>loading\<close>, the machine returns to \<open>idle\<close> with the
  context (\<open>data\<close>, \<open>error\<close>, \<open>retries\<close>, \<open>cache\<close>) unchanged and no actor running; and whatever
  events follow, at whatever times, the resolution of the cancelled Fetch Operation, be it a
  success or a failure, leaves the snapshot exactly as it finds it.
\<close>

theorem cancel_discards_resolution:
  assumes "s = fetch_run (createDataFetchMachine k d c) evs0"
    and "fs_value s = Loading"
    and "fs_child s = Some a"
  shows "fs_value (fetch_step now s CANCEL) = Idle \<and>
         fs_context (fetch_step now s CANCEL) = fs_context s \<and>
         fs_child (fetch_step now s CANCEL) = None \<and>
         fetch_step t (fetch_run (fetch_step now s CANCEL) evs) (DoneActor a v)
           = fetch_run (fetch_step now s CANCEL) evs \<and>
         fetch_step t (fetch_run (fetch_step now s CANCEL) evs) (ErrorActor a e)
           = fetch_run (fetch_step now s CANCEL) evs"
proof -
  have "runtime_inv s"
    using assms(1) runtime_inv_init runtime_inv_run by simp
  with assms(3) have "a < fs_spawned s"
    by (simp add: runtime_inv_def)
  then have "stale a (fetch_step now s CANCEL)"
    using assms(2) by (simp add: cancel_loading stale_def)
  then have "stale a (fetch_run (fetch_step now s CANCEL) evs)"
    by (rule stale_run)
  then show ?thesis
    using assms(2) by (simp add: stale_ignored cancel_loading)
qed

text \<open>
  The theorem at work: a fetch is cancelled, a second one is started, and then the first
  promise resolves with \<open>''A''\<close>; the snapshot stays the one of the second fetch in flight.
\<close>

theorem cancel_discards_resolution_witness:
  "fs_value (fetch_run (createDataFetchMachine 0 1000 0) [(0, FETCH)]) = Loading \<and>
   fs_child (fetch_run (createDataFetchMachine 0 1000 0) [(0, FETCH)]) = Some 0 \<and>
   fs_value (fetch_run (createDataFetchMachine 0 1000 0) [(0, FETCH), (1, CANCEL)]) = Idle \<and>
   fs_value (fetch_run (createDataFetchMachine 0 1000 0)
       [(0, FETCH), (1, CANCEL), (2, FETCH)]) = Loading \<and>
   fetch_run (createDataFetchMachine 0 1000 0)
       [(0, FETCH), (1, CANCEL), (2, FETCH), (3, DoneActor 0 (JStr ''A''))]
     = fetch_run (createDataFetchMachine 0 1000 0) [(0, FETCH), (1, CANCEL), (2, FETCH)]"
proof -
  let ?s = "fetch_run (createDataFetchMachine 0 1000 0) [(0, FETCH)]"
  have v: "fs_value ?s = Loading" and c: "fs_child ?s = Some 0"
    by (simp_all add: fetch_init_defs fetch_step_def fetch_node_defs)
  from cancel_discards_resolution [OF refl v c, of 1 3 "[(2, FETCH)]" "JStr ''A''"]
  show ?thesis
    using v c by (simp add: fetch_init_defs fetch_step_def fetch_node_defs)
qed

subsection \<open>What a success stores in the cache\<close>

text \<open>
  Claim C9. With caching enabled (\<open>cacheTime > 0\<close>), when the Fetch Operation in flight
  succeeds with the value \<open>v\<close>, the machine reaches \<open>success\<close> with \<open>data = v\<close>, and the cache
  entry becomes \<open>{data: v, timestamp: now}\<close> if \<open>v\<close> is truthy and \<open>null\<close> if \<open>v\<close> is falsy,
  whatever entry was stored before.
\<close>

theorem cacheData_on_success:
  assumes "fs_value s = Loading"
    and "fs_child s = Some i"
    and "0 < cacheTime (fs_context s)"
  shows "fs_value (fetch_step now s (DoneActor i v)) = Success \<and>
         data (fs_context (fetch_step now s (DoneActor i v))) = v \<and>
         cache (fs_context (fetch_step now s (DoneActor i v)))
           = (if truthy v then Some (v, now) else None)"
  using assms by (simp add: fetch_step_def fetch_node_defs fetch_action_defs)

text \<open>
  The theorem at work: \<open>''A''\<close> is cached at time 10; the next fetch resolving with the falsy
  \<open>0\<close> at time 30 erases the entry, resolving with \<open>''B''\<close> it replaces it.
\<close>

theorem cacheData_on_success_witness:
  "cache (fs_context (fetch_run (createDataFetchMachine 0 1000 5000)
      [(0, FETCH), (10, DoneActor 0 (JStr ''A'')), (20, FETCH)])) = Some (JStr ''A'', 10) \<and>
   cache (fs_context (fetch_run (createDataFetchMachine 0 1000 5000)
      [(0, FETCH), (10, DoneActor 0 (JStr ''A'')), (20, FETCH), (30, DoneActor 1 (JNum 0))]))
     = None \<and>
   cache (fs_context (fetch_run (createDataFetchMachine 0 1000 5000)
      [(0, FETCH), (10, DoneActor 0 (JStr ''A'')), (20, FETCH), (30, DoneActor 1 (JStr ''B''))]))
     = Some (JStr ''B'', 30)"
proof -
  let ?s = "fetch_run (createDataFetchMachine 0 1000 5000)
      [(0, FETCH), (10, DoneActor 0 (JStr ''A'')), (20, FETCH)]"
  have v: "fs_value ?s = Loading" and c: "fs_child ?s = Some 1"
    and t: "0 < cacheTime (fs_context ?s)"
    and p: "cache (fs_context ?s) = Some (JStr ''A'', 10)"
    by (simp_all add: fetch_init_defs fetch_step_def fetch_node_defs fetch_action_defs)
  from cacheData_on_success [OF v c t, of 30 "JNum 0"]
       cacheData_on_success [OF v c t, of 30 "JStr ''B''"] p
  show ?thesis by simp
qed

subsection \<open>The cache window\<close>






subsection \<open>Retries and backoff\<close>

text \<open>
  Within the safe-integer range the rounding of the delay is the identity; beyond it the
  delay is the rounded product, as for \<open>retryDelay = 2^53 - 1\<close> and \<open>retries = 2\<close>.
\<close>

lemma round_double_safe: "\<bar>n\<bar> < 2 ^ 53 \<Longrightarrow> round_double n = n"
proof -
  assume "\<bar>n\<bar> < 2 ^ 53"
  then have "excess_bits \<bar>n\<bar> = 0"
    by (subst excess_bits.simps) simp
  then show ?thesis
    by (simp add: round_double_def Let_def sgn_if)
qed

lemma delayedRetry_safe:
  assumes "\<bar>retryDelay c * (retries c + 1)\<bar> < 2 ^ 53"
  shows "delayedRetry c = retryDelay c * (retries c + 1)"
proof (cases "retryDelay c = 0")
  case True
  then show ?thesis
    by (simp add: delayedRetry_def round_double_safe)
next
  case False
  then have "1 \<le> \<bar>retryDelay c\<bar>" by simp
  then have "1 * \<bar>retries c + 1\<bar> \<le> \<bar>retryDelay c\<bar> * \<bar>retries c + 1\<bar>"
    by (rule mult_right_mono) simp
  then have "\<bar>retries c + 1\<bar> \<le> \<bar>retryDelay c * (retries c + 1)\<bar>"
    by (simp add: abs_mult)
  with assms have "\<bar>retries c + 1\<bar> < 2 ^ 53" by simp
  then have "round_double (retries c + 1) = retries c + 1"
    by (rule round_double_safe)
  with assms show ?thesis
    by (simp add: delayedRetry_def round_double_safe)
qed

lemma round_double_example:
  "delayedRetry \<lparr>data = JNull, error = JNull, retries = 2, maxRetries = 5,
      retryDelay = 9007199254740991, cache = None, cacheTime = 0\<rparr> = 27021597764222972"
  by code_simp

lemma fail_current_retry:
  assumes "fs_value s = Loading" and "fs_child s = Some a"
    and "retries (fs_context s) < maxRetries (fs_context s)"
  shows "fail_current e s =
     s\<lparr>fs_value := Retrying, fs_child := None,
       fs_timer := Some (fs_spawned s,
         delayedRetry ((fs_context s)\<lparr>retries := retries (fs_context s) + 1\<rparr>)),
       fs_spawned := Suc (fs_spawned s),
       fs_context := (fs_context s)\<lparr>retries := retries (fs_context s) + 1\<rparr>\<rparr>"
  using assms
  by (simp add: fail_current_def fetch_step_def fetch_node_defs incrementRetries_def)


lemma fire_timer_retrying:
  assumes "fs_value s = Retrying" and "fs_timer s = Some (i, dl)"
  shows "fire_timer s =
     s\<lparr>fs_value := Loading, fs_child := Some (fs_spawned s), fs_timer := None,
       fs_spawned := Suc (fs_spawned s)\<rparr>"
  using assms
  by (simp add: fire_timer_def fetch_step_def fetch_node_defs)


lemma fail_and_retry_loading:
  assumes "fs_value s = Loading" and "fs_child s = Some a"
    and "retries (fs_context s) < maxRetries (fs_context s)"
  shows "fail_and_retry e s =
     s\<lparr>fs_value := Loading, fs_child := Some (Suc (fs_spawned s)), fs_timer := None,
       fs_spawned := Suc (Suc (fs_spawned s)),
       fs_context := (fs_context s)\<lparr>retries := retries (fs_context s) + 1\<rparr>\<rparr>"
  using assms
  by (simp add: fail_and_retry_def fail_current_retry [OF assms] fire_timer_retrying)

lemma failed_attempts:
  assumes "fs_value s = Loading" and "fs_child s = Some a"
    and "retries (fs_context s) + int j \<le> maxRetries (fs_context s)"
  shows "fs_value ((fail_and_retry e ^^ j) s) = Loading \<and>
         (\<exists>b. fs_child ((fail_and_retry e ^^ j) s) = Some b) \<and>
         retries (fs_context ((fail_and_retry e ^^ j) s)) = retries (fs_context s) + int j \<and>
         maxRetries (fs_context ((fail_and_retry e ^^ j) s)) = maxRetries (fs_context s) \<and>
         retryDelay (fs_context ((fail_and_retry e ^^ j) s)) = retryDelay (fs_context s)"
  using assms(3)
proof (induction j)
  case 0
  show ?case using assms(1,2) by simp
next
  case (Suc j)
  let ?t = "(fail_and_retry e ^^ j) s"
  from Suc have ih: "fs_value ?t = Loading"
      "retries (fs_context ?t) = retries (fs_context s) + int j"
      "maxRetries (fs_context ?t) = maxRetries (fs_context s)"
      "retryDelay (fs_context ?t) = retryDelay (fs_context s)"
    by simp_all
  from Suc obtain b where b: "fs_child ?t = Some b" by auto
  have lt: "retries (fs_context ?t) < maxRetries (fs_context ?t)"
    using ih Suc.prems by simp
  show ?case
    using ih by (simp add: fail_and_retry_loading [OF ih(1) b lt])
qed




text \<open>
  With \<open>retryDelay = 100\<close> the delay before the first retry is 200 ms, not 100: the delay is
  computed on entry to \<open>retrying\<close>, when \<open>incrementRetries\<close> has already run.
\<close>

theorem linear_backoff_counterexample:
  "fs_timer (fetch_run (createDataFetchMachine 2 100 0)
      [(0, FETCH), (1, ErrorActor 0 (JError ''x''))]) = Some (1, 200) \<and>
   retry_delay (JError ''x'') (fetch_run (createDataFetchMachine 2 100 0) [(0, FETCH)]) 1
     = Some 200 \<and>
   retry_delay (JError ''x'') (fetch_run (createDataFetchMachine 2 100 0) [(0, FETCH)]) 1
     \<noteq> Some (100 * 1)"
  by (simp add: fetch_eval_defs retry_delay_def round_double_safe)

text \<open>
  Claim C3, as the code has it. The delay scheduled when a failure is retried is
  \<open>retryDelay * (retries + 1)\<close> with \<open>retries\<close> read after its increment. So when every attempt
  fails, starting in \<open>loading\<close> with \<open>retries = r\<close>, the delay before retry attempt \<open>i\<close>
  (counted from 1, \<open>r + i \<le> maxRetries\<close>) is \<open>retryDelay * (r + i + 1)\<close>, which is
  \<open>retryDelay * (i + 1)\<close> when the counter starts at 0; and for \<open>retryDelay \<ge> 0\<close> a later
  retry never has a shorter delay than an earlier one. The products are taken within the
  safe-integer range, where the code's double product is exact.

  The factor is the number of the attempt that the delay precedes, counted over all calls of
  the Fetch Operation since the counter was 0: the first retry is attempt 2. With this
  numbering the delay before attempt \<open>n\<close> is \<open>retryDelay * n\<close>. The delays are positive and
  grow by \<open>retryDelay\<close> per retry, and nothing in the code states that the first retry should
  wait \<open>retryDelay\<close> only; the formula is taken as the design.
\<close>

theorem linear_backoff:
  assumes "fs_value s = Loading" and "fs_child s = Some a"
    and "0 \<le> retries (fs_context s)"
    and "1 \<le> i" and "i \<le> i'"
    and "retries (fs_context s) + int i' \<le> maxRetries (fs_context s)"
    and "\<bar>retryDelay (fs_context s) * (retries (fs_context s) + int i' + 1)\<bar> < 2 ^ 53"
  shows "retry_delay e s i
           = Some (retryDelay (fs_context s) * (retries (fs_context s) + int i + 1)) \<and>
         retry_delay e s i'
           = Some (retryDelay (fs_context s) * (retries (fs_context s) + int i' + 1)) \<and>
         (0 \<le> retryDelay (fs_context s) \<longrightarrow>
            retryDelay (fs_context s) * (retries (fs_context s) + int i + 1)
              \<le> retryDelay (fs_context s) * (retries (fs_context s) + int i' + 1))"
proof -
  let ?d = "retryDelay (fs_context s)" and ?r = "retries (fs_context s)"
  have d: "retry_delay e s n = Some (?d * (?r + int n + 1))"
    if n: "1 \<le> n" "n \<le> i'" for n
  proof -
    let ?t = "(fail_and_retry e ^^ (n - 1)) s"
    have le: "?r + int (n - 1) \<le> maxRetries (fs_context s)"
      using n assms(6) by simp
    from failed_attempts [OF assms(1,2) le, of e]
    obtain b where t: "fs_value ?t = Loading" "fs_child ?t = Some b"
        "retries (fs_context ?t) = ?r + int (n - 1)"
        "maxRetries (fs_context ?t) = maxRetries (fs_context s)"
        "retryDelay (fs_context ?t) = ?d"
      by auto
    have lt: "retries (fs_context ?t) < maxRetries (fs_context ?t)"
      using t n assms(6) by simp
    have r1: "retries (fs_context ?t) + 1 = ?r + int n"
      using t(3) n by simp
    have "\<bar>?r + int n + 1\<bar> \<le> \<bar>?r + int i' + 1\<bar>"
      using assms(3) n by simp
    then have "\<bar>?d\<bar> * \<bar>?r + int n + 1\<bar> \<le> \<bar>?d\<bar> * \<bar>?r + int i' + 1\<bar>"
      by (rule mult_left_mono) simp
    then have "\<bar>?d * (?r + int n + 1)\<bar> < 2 ^ 53"
      using assms(7) by (simp add: abs_mult)
    then have safe: "\<bar>retryDelay ((fs_context ?t)\<lparr>retries := ?r + int n\<rparr>)
                       * (retries ((fs_context ?t)\<lparr>retries := ?r + int n\<rparr>) + 1)\<bar> < 2 ^ 53"
      using t(5) by simp
    have "fs_timer (fail_current e ?t)
            = Some (fs_spawned ?t, delayedRetry ((fs_context ?t)\<lparr>retries := ?r + int n\<rparr>))"
      using fail_current_retry [OF t(1,2) lt, of e] r1 by simp
    moreover have "delayedRetry ((fs_context ?t)\<lparr>retries := ?r + int n\<rparr>)
                     = ?d * (?r + int n + 1)"
      using delayedRetry_safe [OF safe] t(5) by simp
    ultimately show ?thesis
      by (simp add: retry_delay_def pending_delay_def)
  qed
  have m: "0 \<le> ?d \<longrightarrow> ?d * (?r + int i + 1) \<le> ?d * (?r + int i' + 1)"
    using assms(5) by (simp add: mult_left_mono)
  from d [of i] d [of i'] m assms(4,5) show ?thesis by simp
qed

text \<open>
  The theorem at work, \<open>retryDelay = 100\<close>: from the first \<open>FETCH\<close> the two retries wait 200
  and 300 ms; after a cancelled retry the next fetch starts with \<open>retries = 1\<close> and its first
  retry waits 300 ms.
\<close>

theorem linear_backoff_witness:
  "retry_delay (JError ''x'') (fetch_run (createDataFetchMachine 2 100 0) [(0, FETCH)]) 1
     = Some (100 * 2) \<and>
   retry_delay (JError ''x'') (fetch_run (createDataFetchMachine 2 100 0) [(0, FETCH)]) 2
     = Some (100 * 3) \<and>
   retries (fs_context (fetch_run (createDataFetchMachine 2 100 0)
      [(0, FETCH), (1, ErrorActor 0 (JError ''x'')), (2, CANCEL), (3, FETCH)])) = 1 \<and>
   retry_delay (JError ''x'') (fetch_run (createDataFetchMachine 2 100 0)
      [(0, FETCH), (1, ErrorActor 0 (JError ''x'')), (2, CANCEL), (3, FETCH)]) 1
     = Some (100 * 3)"
proof -
  let ?s = "fetch_run (createDataFetchMachine 2 100 0) [(0, FETCH)]"
  let ?u = "fetch_run (createDataFetchMachine 2 100 0)
      [(0, FETCH), (1, ErrorActor 0 (JError ''x'')), (2, CANCEL), (3, FETCH)]"
  have v: "fs_value ?s = Loading" and c: "fs_child ?s = Some 0"
    and r: "retries (fs_context ?s) = 0" and m: "maxRetries (fs_context ?s) = 2"
    and d: "retryDelay (fs_context ?s) = 100"
    by (simp_all add: fetch_init_defs fetch_step_def fetch_node_defs)
  have uv: "fs_value ?u = Loading" and uc: "fs_child ?u = Some 2"
    and ur: "retries (fs_context ?u) = 1" and um: "maxRetries (fs_context ?u) = 2"
    and ud: "retryDelay (fs_context ?u) = 100"
    by (simp_all add: fetch_init_defs fetch_step_def fetch_node_defs incrementRetries_def)
  have s0: "0 \<le> retries (fs_context ?s)"
    and s6: "retries (fs_context ?s) + int 2 \<le> maxRetries (fs_context ?s)"
    and s7: "\<bar>retryDelay (fs_context ?s) * (retries (fs_context ?s) + int 2 + 1)\<bar> < 2 ^ 53"
    using r m d by simp_all
  have u0: "0 \<le> retries (fs_context ?u)"
    and u6: "retries (fs_context ?u) + int 1 \<le> maxRetries (fs_context ?u)"
    and u7: "\<bar>retryDelay (fs_context ?u) * (retries (fs_context ?u) + int 1 + 1)\<bar> < 2 ^ 53"
    using ur um ud by simp_all
  have i: "1 \<le> (1::nat)" "(1::nat) \<le> 2" "(1::nat) \<le> 1"
    by simp_all
  from linear_backoff [OF v c s0 i(1) i(2) s6 s7, of "JError ''x''"]
       linear_backoff [OF uv uc u0 i(1) i(3) u6 u7, of "JError ''x''"]
       r d ur ud
  show ?thesis by simp
qed

text \<open>
  With \<open>maxRetries = 1\<close>, the second failure moves the machine to \<open>error\<close> with \<open>retries\<close>
  still 1: the transition to \<open>error\<close> runs \<open>setError\<close> only.
\<close>

theorem retries_reset_counterexample:
  "fs_value (fetch_run (createDataFetchMachine 1 100 0)
      [(0, FETCH), (1, ErrorActor 0 (JError ''x'')), (201, AfterDelay 1),
       (202, ErrorActor 2 (JError ''x''))]) = Error \<and>
   retries (fs_context (fetch_run (createDataFetchMachine 1 100 0)
      [(0, FETCH), (1, ErrorActor 0 (JError ''x'')), (201, AfterDelay 1),
       (202, ErrorActor 2 (JError ''x''))])) = 1 \<and>
   retries (fs_context (fetch_run (createDataFetchMachine 1 100 0)
      [(0, FETCH), (1, ErrorActor 0 (JError ''x'')), (201, AfterDelay 1),
       (202, ErrorActor 2 (JError ''x''))])) \<noteq> 0"
  by (simp add: fetch_eval_defs)

text \<open>
  Claim C5, as the code has it. For \<open>maxRetries = k \<ge> 0\<close>, in every reachable snapshot
  \<open>retries \<le> maxRetries\<close>. When the running attempt fails with \<open>retries = maxRetries\<close>, the
  machine moves to \<open>error\<close>, records the failure and leaves \<open>retries\<close> as it is; \<open>retries\<close> is
  set to 0 by the \<open>RETRY\<close> or \<open>FETCH\<close> that leaves \<open>error\<close>.
\<close>

theorem retries_bounded:
  assumes "0 \<le> k" and "s = fetch_run (createDataFetchMachine k d c) evs"
  shows "retries (fs_context s) \<le> maxRetries (fs_context s) \<and>
         maxRetries (fs_context s) = k \<and>
         (fs_child s = Some i \<and> retries (fs_context s) = k \<longrightarrow>
            fs_value (fetch_step now s (ErrorActor i e)) = Error \<and>
            error (fs_context (fetch_step now s (ErrorActor i e))) = e \<and>
            retries (fs_context (fetch_step now s (ErrorActor i e))) = k) \<and>
         (fs_value s = Error \<longrightarrow>
            fs_value (fetch_step now s RETRY) = Loading \<and>
            retries (fs_context (fetch_step now s RETRY)) = 0 \<and>
            fs_value (fetch_step now s FETCH) = Loading \<and>
            retries (fs_context (fetch_step now s FETCH)) = 0)"
proof -
  have ri: "retries_inv s"
    using assms retries_inv_run [OF retries_inv_init] by simp
  have ci: "config_inv k d c s"
    using assms(2) config_inv_run [OF config_inv_init] by simp
  have ru: "runtime_inv s"
    using assms(2) runtime_inv_run [OF runtime_inv_init] by simp
  have a: "retries (fs_context s) \<le> maxRetries (fs_context s) \<and> maxRetries (fs_context s) = k"
    using ri ci by (simp add: retries_inv_def config_inv_def)
  have b: "fs_child s = Some i \<and> retries (fs_context s) = k \<longrightarrow>
            fs_value (fetch_step now s (ErrorActor i e)) = Error \<and>
            error (fs_context (fetch_step now s (ErrorActor i e))) = e \<and>
            retries (fs_context (fetch_step now s (ErrorActor i e))) = k"
    using ru a
    by (auto simp: runtime_inv_def fetch_step_def fetch_node_defs fetch_action_defs)
  have c: "fs_value s = Error \<longrightarrow>
            fs_value (fetch_step now s RETRY) = Loading \<and>
            retries (fs_context (fetch_step now s RETRY)) = 0 \<and>
            fs_value (fetch_step now s FETCH) = Loading \<and>
            retries (fs_context (fetch_step now s FETCH)) = 0"
    by (simp add: fetch_step_def fetch_node_defs fetch_action_defs)
  from a b c show ?thesis by blast
qed

text \<open>
  The theorem at work, \<open>maxRetries = 1\<close>: the failure of the retried attempt gives \<open>error\<close> with
  \<open>retries = 1\<close>, and the following \<open>RETRY\<close> sets \<open>retries\<close> to 0.
\<close>

theorem retries_bounded_witness:
  "fs_child (fetch_run (createDataFetchMachine 1 100 0)
      [(0, FETCH), (1, ErrorActor 0 (JError ''x'')), (201, AfterDelay 1)]) = Some 2 \<and>
   retries (fs_context (fetch_run (createDataFetchMachine 1 100 0)
      [(0, FETCH), (1, ErrorActor 0 (JError ''x'')), (201, AfterDelay 1)])) = 1 \<and>
   fs_value (fetch_run (createDataFetchMachine 1 100 0)
      [(0, FETCH), (1, ErrorActor 0 (JError ''x'')), (201, AfterDelay 1),
       (202, ErrorActor 2 (JError ''y''))]) = Error \<and>
   error (fs_context (fetch_run (createDataFetchMachine 1 100 0)
      [(0, FETCH), (1, ErrorActor 0 (JError ''x'')), (201, AfterDelay 1),
       (202, ErrorActor 2 (JError ''y''))])) = JError ''y'' \<and>
   retries (fs_context (fetch_run (createDataFetchMachine 1 100 0)
      [(0, FETCH), (1, ErrorActor 0 (JError ''x'')), (201, AfterDelay 1),
       (202, ErrorActor 2 (JError ''y''))])) = 1 \<and>
   retries (fs_context (fetch_run (createDataFetchMachine 1 100 0)
      [(0, FETCH), (1, ErrorActor 0 (JError ''x'')), (201, AfterDelay 1),
       (202, ErrorActor 2 (JError ''y'')), (300, RETRY)])) = 0"
proof -
  let ?a = "[(0, FETCH), (1, ErrorActor 0 (JError ''x'')), (201, AfterDelay 1)]"
  let ?b = "[(0, FETCH), (1, ErrorActor 0 (JError ''x'')), (201, AfterDelay 1),
       (202, ErrorActor 2 (JError ''y''))]"
  let ?s = "fetch_run (createDataFetchMachine 1 100 0) ?a"
  let ?t = "fetch_run (createDataFetchMachine 1 100 0) ?b"
  have k: "(0::int) \<le> 1" by simp
  have s: "fs_child ?s = Some 2 \<and> retries (fs_context ?s) = 1"
    by (simp add: fetch_eval_defs)
  have t: "fs_value ?t = Error"
    by (simp add: fetch_eval_defs)
  from retries_bounded [OF k refl, of 100 0 ?a 2 202 "JError ''y''"] s
       retries_bounded [OF k refl, of 100 0 ?b _ 300] t
  show ?thesis by simp
qed

section \<open>Properties of the paginated machine\<close>

lemmas paginated_action_defs =
  setPage_def incrementPage_def setLoading_def clearLoading_def appendItems_def
  updatePagination_def setErrorState_def resetPaginationContext_def

lemmas paginated_node_defs = p_assign_def p_enter_loading_def p_exit_loading_def

lemmas paginated_init_defs = createPaginatedFetchMachine_def initialPaginatedContext_def

lemmas paginated_eval_defs =
  paginated_init_defs paginated_step_def paginated_node_defs paginated_action_defs page_of_def

lemma paginated_inv_step: "paginated_inv l s \<Longrightarrow> paginated_inv l (paginated_step s ev)"
  by (cases "ps_value s"; cases ev)
     (auto simp: paginated_step_def paginated_inv_def paginated_action_defs paginated_node_defs
           split: option.splits)

lemma paginated_inv_run: "paginated_inv l s \<Longrightarrow> paginated_inv l (paginated_run s evs)"
  by (induction evs arbitrary: s) (auto simp: paginated_inv_step)

lemma paginated_inv_init: "paginated_inv l (createPaginatedFetchMachine l)"
  by (simp add: paginated_inv_def paginated_init_defs)

lemma page_done:
  assumes "ps_value s = PLoading" and "ps_child s = Some (i, p, l)"
  shows "paginated_step s (PageDone i out) =
     s\<lparr>ps_value := PIdle, ps_child := None,
       ps_context := clearLoading (updatePagination out (appendItems out (ps_context s)))\<rparr>"
  using assms by (simp add: paginated_step_def paginated_node_defs)

lemma hasMore_after_load:
  assumes "ps_value s = PLoading" and "ps_child s = Some (i, p, l)"
  shows "hasMore (ps_context (paginated_step s (PageDone i out))) =
     (int (length (items (ps_context (paginated_step s (PageDone i out)))))
        + int (length (out_items out)) < total (ps_context (paginated_step s (PageDone i out))))"
  using assms by (simp add: page_done paginated_action_defs)



subsection \<open>The field \<open>loading\<close>\<close>

text \<open>
  Claim C10. In every reachable snapshot of the paginated machine the context field
  \<open>loading\<close> is true exactly when the machine is in the state \<open>loading\<close>. It is set on entry:
  \<open>LOAD_PAGE\<close>, and \<open>LOAD_MORE\<close> when \<open>hasMore\<close> holds, received outside \<open>loading\<close> lead to
  \<open>loading\<close> with the field true. It is cleared on both ways out: while a load is running
  the field is true, the success of that load leads to \<open>idle\<close> and its failure to \<open>error\<close>,
  each with the field false. So every snapshot taken in \<open>idle\<close> or \<open>error\<close> shows
  \<open>loading = false\<close>.
\<close>

theorem loading_flag_tracks_state:
  assumes "s = paginated_run (createPaginatedFetchMachine l) evs"
  shows "loading (ps_context s) = (ps_value s = PLoading) \<and>
         (ps_value s \<noteq> PLoading \<longrightarrow>
            ps_value (paginated_step s (LOAD_PAGE n)) = PLoading \<and>
            loading (ps_context (paginated_step s (LOAD_PAGE n)))) \<and>
         (ps_value s \<noteq> PLoading \<and> hasMore (ps_context s) \<longrightarrow>
            ps_value (paginated_step s LOAD_MORE) = PLoading \<and>
            loading (ps_context (paginated_step s LOAD_MORE))) \<and>
         (ps_child s = Some (i, p, lm) \<longrightarrow>
            ps_value s = PLoading \<and> loading (ps_context s) \<and>
            ps_value (paginated_step s (PageDone i out)) = PIdle \<and>
            \<not> loading (ps_context (paginated_step s (PageDone i out))) \<and>
            ps_value (paginated_step s (PageError i e)) = PError \<and>
            \<not> loading (ps_context (paginated_step s (PageError i e))))"
proof -
  have inv: "paginated_inv l s"
    using assms paginated_inv_run [OF paginated_inv_init] by simp
  have a: "loading (ps_context s) = (ps_value s = PLoading)"
    using inv by (simp add: paginated_inv_def)
  have b: "ps_value s \<noteq> PLoading \<longrightarrow>
            ps_value (paginated_step s (LOAD_PAGE n)) = PLoading \<and>
            loading (ps_context (paginated_step s (LOAD_PAGE n)))"
    by (cases "ps_value s")
       (simp_all add: paginated_step_def paginated_node_defs paginated_action_defs Let_def)
  have c: "ps_value s \<noteq> PLoading \<and> hasMore (ps_context s) \<longrightarrow>
            ps_value (paginated_step s LOAD_MORE) = PLoading \<and>
            loading (ps_context (paginated_step s LOAD_MORE))"
    using a
    by (cases "ps_value s")
       (simp_all add: paginated_step_def paginated_node_defs paginated_action_defs Let_def)
  have d: "ps_child s = Some (i, p, lm) \<longrightarrow>
            ps_value s = PLoading \<and> loading (ps_context s) \<and>
            ps_value (paginated_step s (PageDone i out)) = PIdle \<and>
            \<not> loading (ps_context (paginated_step s (PageDone i out))) \<and>
            ps_value (paginated_step s (PageError i e)) = PError \<and>
            \<not> loading (ps_context (paginated_step s (PageError i e)))"
    using inv
    by (auto simp: paginated_inv_def paginated_step_def paginated_node_defs
        paginated_action_defs)
  from a b c d show ?thesis by blast
qed

text \<open>
  The theorem at work: the field is false initially, true while page 1 is in flight, false
  after that load failed and false after it succeeded, and true again when \<open>LOAD_MORE\<close> is
  accepted in \<open>error\<close>.
\<close>

theorem loading_flag_tracks_state_witness:
  "loading (ps_context (paginated_run (createPaginatedFetchMachine 20) [])) = False \<and>
   ps_value (paginated_run (createPaginatedFetchMachine 20) [LOAD_PAGE 1]) = PLoading \<and>
   loading (ps_context (paginated_run (createPaginatedFetchMachine 20) [LOAD_PAGE 1])) = True \<and>
   ps_value (paginated_run (createPaginatedFetchMachine 20)
      [LOAD_PAGE 1, PageError 0 (JError ''offline'')]) = PError \<and>
   loading (ps_context (paginated_run (createPaginatedFetchMachine 20)
      [LOAD_PAGE 1, PageError 0 (JError ''offline'')])) = False \<and>
   ps_value (paginated_run (createPaginatedFetchMachine 20)
      [LOAD_PAGE 1, PageDone 0 (page_of 20 45)]) = PIdle \<and>
   loading (ps_context (paginated_run (createPaginatedFetchMachine 20)
      [LOAD_PAGE 1, PageDone 0 (page_of 20 45)])) = False \<and>
   ps_value (paginated_run (createPaginatedFetchMachine 20)
      [LOAD_PAGE 1, PageError 0 (JError ''offline''), LOAD_MORE]) = PLoading \<and>
   loading (ps_context (paginated_run (createPaginatedFetchMachine 20)
      [LOAD_PAGE 1, PageError 0 (JError ''offline''), LOAD_MORE])) = True"
proof -
  let ?i = "paginated_run (createPaginatedFetchMachine 20) []"
  let ?s = "paginated_run (createPaginatedFetchMachine 20) [LOAD_PAGE 1]"
  let ?f = "paginated_run (createPaginatedFetchMachine 20)
      [LOAD_PAGE 1, PageError 0 (JError ''offline'')]"
  have i: "ps_value ?i \<noteq> PLoading"
    by (simp add: paginated_init_defs)
  have s: "ps_child ?s = Some (0, 1, 20)"
    by (simp add: paginated_eval_defs Let_def)
  have f: "ps_value ?f \<noteq> PLoading \<and> hasMore (ps_context ?f)"
    by (simp add: paginated_eval_defs Let_def)
  from loading_flag_tracks_state [OF refl, of 20 "[]" 1]
       loading_flag_tracks_state [OF refl, of 20 "[LOAD_PAGE 1]" _ 0 1 20
         "page_of 20 45" "JError ''offline''"]
       loading_flag_tracks_state [OF refl, of 20 "[LOAD_PAGE 1, PageError 0 (JError ''offline'')]"]
       i s f
  show ?thesis by simp
qed

subsection \<open>The field \<open>hasMore\<close>\<close>

text \<open>
  Claim C2 says that after a successful load \<open>hasMore\<close> holds iff the accumulated list is
  shorter than the reported total. The code runs \<open>appendItems\<close> before \<open>updatePagination\<close>, so
  the length that \<open>updatePagination\<close> reads already includes the new page, and the new page
  is counted twice (lemma \<open>hasMore_after_load\<close>). In the scenario of the specification,
  page size 20 and total 45: after page 1 there are 20 items and \<open>hasMore\<close> is true; after
  page 2 there are 40 items, fewer than 45, and \<open>hasMore\<close> is false; the guard of \<open>LOAD_MORE\<close>
  then fails, so the event changes nothing and page 3 is not requested.
\<close>

theorem hasMore_scenario:
  "length (items (ps_context (paginated_run (createPaginatedFetchMachine 20)
       [LOAD_PAGE 1, PageDone 0 (page_of 20 45)]))) = 20 \<and>
   hasMore (ps_context (paginated_run (createPaginatedFetchMachine 20)
       [LOAD_PAGE 1, PageDone 0 (page_of 20 45)])) = True \<and>
   length (items (ps_context (paginated_run (createPaginatedFetchMachine 20)
       [LOAD_PAGE 1, PageDone 0 (page_of 20 45), LOAD_MORE, PageDone 1 (page_of 20 45)]))) = 40 \<and>
   total (ps_context (paginated_run (createPaginatedFetchMachine 20)
       [LOAD_PAGE 1, PageDone 0 (page_of 20 45), LOAD_MORE, PageDone 1 (page_of 20 45)])) = 45 \<and>
   hasMore (ps_context (paginated_run (createPaginatedFetchMachine 20)
       [LOAD_PAGE 1, PageDone 0 (page_of 20 45), LOAD_MORE, PageDone 1 (page_of 20 45)])) = False \<and>
   paginated_run (createPaginatedFetchMachine 20)
       [LOAD_PAGE 1, PageDone 0 (page_of 20 45), LOAD_MORE, PageDone 1 (page_of 20 45), LOAD_MORE]
     = paginated_run (createPaginatedFetchMachine 20)
       [LOAD_PAGE 1, PageDone 0 (page_of 20 45), LOAD_MORE, PageDone 1 (page_of 20 45)]"
  by (simp add: paginated_init_defs paginated_step_def paginated_node_defs paginated_action_defs
      page_of_def)

subsection \<open>Replacing and appending\<close>




section \<open>\<open>RESET\<close> in both machines\<close>

lemma fetch_reset:
  assumes "config_inv k d c s" and "runtime_inv s" and "fs_value s \<noteq> Loading"
  shows "fs_value (fetch_step now s RESET) = Idle"
    and "fs_context (fetch_step now s RESET) = initialContext k d c"
    and "fs_child (fetch_step now s RESET) = None"
    and "fs_timer (fetch_step now s RESET) = None"
  using assms
  by (cases "fs_value s";
      auto simp: fetch_step_def config_inv_def runtime_inv_def fetch_node_defs fetch_action_defs
        initialContext_def split: option.splits)+

lemma paginated_reset:
  assumes "paginated_inv l s" and "ps_value s \<noteq> PLoading"
  shows "ps_value (paginated_step s P_RESET) = PIdle"
    and "ps_context (paginated_step s P_RESET) = initialPaginatedContext l"
    and "ps_child (paginated_step s P_RESET) = None"
  using assms
  by (cases "ps_value s";
      auto simp: paginated_step_def paginated_inv_def paginated_node_defs paginated_action_defs
        initialPaginatedContext_def split: option.splits)+

text \<open>
  Neither machine has a transition for \<open>RESET\<close> in \<open>loading\<close>. Single fetch: \<open>''A''\<close> was
  fetched and a second fetch is in flight; \<open>RESET\<close> leaves the machine in \<open>loading\<close> with
  \<open>data = ''A''\<close>. Paginated: page 1 is loaded and page 2 is in flight; \<open>P_RESET\<close> leaves the
  machine in \<open>loading\<close> with its 20 items and \<open>page = 2\<close>.
\<close>

theorem reset_in_loading_counterexample:
  "fs_value (fetch_run (createDataFetchMachine 0 1000 0)
      [(0, FETCH), (1, DoneActor 0 (JStr ''A'')), (2, FETCH), (3, RESET)]) = Loading \<and>
   data (fs_context (fetch_run (createDataFetchMachine 0 1000 0)
      [(0, FETCH), (1, DoneActor 0 (JStr ''A'')), (2, FETCH), (3, RESET)])) = JStr ''A'' \<and>
   ps_value (paginated_run (createPaginatedFetchMachine 20)
      [LOAD_PAGE 1, PageDone 0 (page_of 20 45), LOAD_MORE, P_RESET]) = PLoading \<and>
   length (items (ps_context (paginated_run (createPaginatedFetchMachine 20)
      [LOAD_PAGE 1, PageDone 0 (page_of 20 45), LOAD_MORE, P_RESET]))) = 20 \<and>
   page (ps_context (paginated_run (createPaginatedFetchMachine 20)
      [LOAD_PAGE 1, PageDone 0 (page_of 20 45), LOAD_MORE, P_RESET])) = 2"
  by (simp add: paginated_eval_defs fetch_init_defs fetch_step_def fetch_node_defs
      fetch_action_defs)

text \<open>
  Claim C6, as the code has it. For both machines, \<open>RESET\<close> received in any reachable snapshot
  whose state is not \<open>loading\<close> leads to \<open>idle\<close> with the context equal to the initial context
  of the construction, no actor running and no delayed event pending.
\<close>

theorem reset_outside_loading:
  "(fs_value (fetch_run (createDataFetchMachine k d c) evs) \<noteq> Loading \<longrightarrow>
      fs_value (fetch_step now (fetch_run (createDataFetchMachine k d c) evs) RESET) = Idle \<and>
      fs_context (fetch_step now (fetch_run (createDataFetchMachine k d c) evs) RESET)
        = initialContext k d c \<and>
      fs_child (fetch_step now (fetch_run (createDataFetchMachine k d c) evs) RESET) = None \<and>
      fs_timer (fetch_step now (fetch_run (createDataFetchMachine k d c) evs) RESET) = None) \<and>
   (ps_value (paginated_run (createPaginatedFetchMachine l) pevs) \<noteq> PLoading \<longrightarrow>
      ps_value (paginated_step (paginated_run (createPaginatedFetchMachine l) pevs) P_RESET)
        = PIdle \<and>
      ps_context (paginated_step (paginated_run (createPaginatedFetchMachine l) pevs) P_RESET)
        = initialPaginatedContext l \<and>
      ps_child (paginated_step (paginated_run (createPaginatedFetchMachine l) pevs) P_RESET)
        = None)"
proof -
  have "config_inv k d c (fetch_run (createDataFetchMachine k d c) evs)"
    by (rule config_inv_run [OF config_inv_init])
  moreover have "runtime_inv (fetch_run (createDataFetchMachine k d c) evs)"
    by (rule runtime_inv_run [OF runtime_inv_init])
  moreover have "paginated_inv l (paginated_run (createPaginatedFetchMachine l) pevs)"
    by (rule paginated_inv_run [OF paginated_inv_init])
  ultimately show ?thesis
    by (simp add: fetch_reset paginated_reset)
qed

text \<open>
  The theorem at work: \<open>RESET\<close> in \<open>retrying\<close> and \<open>P_RESET\<close> in \<open>error\<close> give back the initial
  snapshot, up to the count of actors and timers started.
\<close>

theorem reset_outside_loading_witness:
  "fs_value (fetch_run (createDataFetchMachine 1 100 0)
      [(0, FETCH), (1, ErrorActor 0 (JError ''x''))]) = Retrying \<and>
   fetch_run (createDataFetchMachine 1 100 0)
      [(0, FETCH), (1, ErrorActor 0 (JError ''x'')), (2, RESET)]
     = (createDataFetchMachine 1 100 0)\<lparr>fs_spawned := 2\<rparr> \<and>
   ps_value (paginated_run (createPaginatedFetchMachine 20)
      [LOAD_PAGE 3, PageError 0 (JError ''x'')]) = PError \<and>
   paginated_run (createPaginatedFetchMachine 20)
      [LOAD_PAGE 3, PageError 0 (JError ''x''), P_RESET]
     = (createPaginatedFetchMachine 20)\<lparr>ps_spawned := 1\<rparr>"
proof -
  let ?s = "fetch_run (createDataFetchMachine 1 100 0) [(0, FETCH), (1, ErrorActor 0 (JError ''x''))]"
  let ?p = "paginated_run (createPaginatedFetchMachine 20) [LOAD_PAGE 3, PageError 0 (JError ''x'')]"
  have v: "fs_value ?s = Retrying" and n: "fs_spawned ?s = 2"
    by (simp_all add: fetch_init_defs fetch_step_def fetch_node_defs fetch_action_defs)
  have pv: "ps_value ?p = PError" and pn: "ps_spawned ?p = 1"
    by (simp_all add: paginated_eval_defs)
  have sp: "fs_spawned (fetch_step 2 ?s RESET) = 2"
    using v n by (simp add: fetch_step_def fetch_node_defs)
  have psp: "ps_spawned (paginated_step ?p P_RESET) = 1"
    using pv pn by (simp add: paginated_step_def paginated_node_defs)
  from reset_outside_loading [of 1 100 0 "[(0, FETCH), (1, ErrorActor 0 (JError ''x''))]" 2
      20 "[LOAD_PAGE 3, PageError 0 (JError ''x'')]"] v pv sp psp
  show ?thesis
    by (simp add: createDataFetchMachine_def createPaginatedFetchMachine_def
        FetchSnapshot.equality PaginatedSnapshot.equality)
qed

end
